theory Spec2Isabelle
  imports Main "HOL-Library.Word"
begin

section \<open>The gateway's table of routed devices (gw\_device.c)\<close>

text \<open>
  A shallow embedding of \<^verbatim>\<open>src/bacnet/basic/object/gateway/gw_device.c\<close>.
  The three file-scope variables of the source (\<^verbatim>\<open>Devices[]\<close>,
  \<^verbatim>\<open>Num_Managed_Devices\<close>, \<^verbatim>\<open>iCurrent_Device_Idx\<close>) form a record that
  every operation takes and returns. C \<^verbatim>\<open>int\<close> values (indices, cursors, network
  numbers of the DNET list) are HOL integers: the source increments an index only below
  \<^verbatim>\<open>MAX_NUM_DEVICES\<close>, so no \<^verbatim>\<open>int\<close> overflows. The unsigned fixed-width
  variables are words, whose arithmetic wraps as in C.
\<close>

subsection \<open>Data\<close>

type_synonym uint8_t = "8 word"
type_synonym uint16_t = "16 word"
type_synonym uint32_t = "32 word"

text \<open>\<^verbatim>\<open>BACNET_ADDRESS\<close>: the fixed-size octet arrays are lists.\<close>

record BACNET_ADDRESS =
  mac_len :: uint8_t
  mac :: "uint8_t list"
  net :: uint16_t
  len :: uint8_t
  adr :: "uint8_t list"

text \<open>
  \<^verbatim>\<open>BACNET_CHARACTER_STRING\<close>. The fields \<^verbatim>\<open>length\<close> and \<^verbatim>\<open>value\<close> carry a
  suffix, the plain names being taken.
\<close>

record BACNET_CHARACTER_STRING =
  encoding :: uint8_t
  length_cs :: nat
  value_cs :: string

text \<open>
  \<^verbatim>\<open>COMMON_BAC_OBJECT\<close> and \<^verbatim>\<open>DEVICE_OBJECT_DATA\<close>. A \<^verbatim>\<open>char\<close> buffer is
  modelled by the C string it holds (the characters before the first NUL).
\<close>

record COMMON_BAC_OBJECT =
  mObject_Type :: nat
  Object_Instance_Number :: uint32_t
  Object_Name :: string

record DEVICE_OBJECT_DATA =
  bacObj :: COMMON_BAC_OBJECT
  bacDevAddr :: BACNET_ADDRESS
  Description :: string
  Database_Revision :: uint32_t

record gw_state =
  Devices :: "DEVICE_OBJECT_DATA list"
  Num_Managed_Devices :: uint16_t
  iCurrent_Device_Idx :: uint16_t

text \<open>
  The macros come from headers that are not part of the source at hand.
  \<^verbatim>\<open>MAX_NUM_DEVICES\<close> is the declared length of \<^verbatim>\<open>Devices[]\<close>, so it is read off
  the array; the two string limits are parameters of the operations that use them; the
  others have the values the BACnet standard fixes.
\<close>

definition MAX_NUM_DEVICES :: "gw_state \<Rightarrow> int" where
  "MAX_NUM_DEVICES s = int (length (Devices s))"

record gw_limits =
  MAX_DEV_NAME_LEN :: nat
  MAX_DEV_DESC_LEN :: nat

definition UINT16_MAX :: uint16_t where
  "UINT16_MAX = 65535"

definition BACNET_BROADCAST_NETWORK :: uint16_t where
  "BACNET_BROADCAST_NETWORK = 65535"


definition OBJECT_DEVICE :: nat where
  "OBJECT_DEVICE = 8"

definition CHARACTER_UTF8 :: uint8_t where
  "CHARACTER_UTF8 = 0"

text \<open>
  A slot of static storage before anything is written to it: all fields zero. The
  address octets are \<open>n\<close> zeros, \<open>n\<close> standing for \<^verbatim>\<open>MAX_MAC_LEN\<close>.
\<close>

definition zero_address :: "nat \<Rightarrow> BACNET_ADDRESS" where
  "zero_address n =
     \<lparr>mac_len = 0, mac = replicate n 0, net = 0, len = 0, adr = replicate n 0\<rparr>"

definition zero_device :: "nat \<Rightarrow> DEVICE_OBJECT_DATA" where
  "zero_device n =
     \<lparr>bacObj = \<lparr>mObject_Type = 0, Object_Instance_Number = 0, Object_Name = []\<rparr>,
      bacDevAddr = zero_address n, Description = [], Database_Revision = 0\<rparr>"

text \<open>The state at program start, for a table of \<open>cap\<close> slots.\<close>

definition initial_state :: "nat \<Rightarrow> nat \<Rightarrow> gw_state" where
  "initial_state cap n =
     \<lparr>Devices = replicate cap (zero_device n), Num_Managed_Devices = 0,
      iCurrent_Device_Idx = 0\<rparr>"

subsection \<open>C strings\<close>

definition c_str :: "string \<Rightarrow> string" where
  "c_str bytes = takeWhile (\<lambda>c. c \<noteq> CHR 0x00) bytes"

definition strlen :: "string \<Rightarrow> nat" where
  "strlen bytes = length (c_str bytes)"

text \<open>
  \<^verbatim>\<open>memmove(buf, value, n); buf[n] = 0;\<close> leaves in \<^verbatim>\<open>buf\<close> the C string of the
  first \<open>n\<close> bytes of \<^verbatim>\<open>value\<close>.
\<close>

definition stored_string :: "string \<Rightarrow> nat \<Rightarrow> string" where
  "stored_string bytes n = c_str (take n bytes)"

subsection \<open>Setters working on the current device\<close>

definition current_device :: "gw_state \<Rightarrow> DEVICE_OBJECT_DATA" where
  "current_device s = Devices s ! unat (iCurrent_Device_Idx s)"

definition set_device :: "nat \<Rightarrow> DEVICE_OBJECT_DATA \<Rightarrow> gw_state \<Rightarrow> gw_state" where
  "set_device i d s = s\<lparr>Devices := (Devices s)[i := d]\<rparr>"

definition Routed_Device_Inc_Database_Revision :: "gw_state \<Rightarrow> gw_state" where
  "Routed_Device_Inc_Database_Revision s =
     (let pDev = current_device s
      in set_device (unat (iCurrent_Device_Idx s))
           (pDev\<lparr>Database_Revision := Database_Revision pDev + 1\<rparr>) s)"


definition Routed_Device_Set_Object_Name ::
  "gw_limits \<Rightarrow> uint8_t \<Rightarrow> string \<Rightarrow> nat \<Rightarrow> gw_state \<Rightarrow> bool \<times> gw_state" where
  "Routed_Device_Set_Object_Name lim enc val n s =
     (if enc = CHARACTER_UTF8 \<and> n < MAX_DEV_NAME_LEN lim then
        (let pDev = current_device s;
             s1 = set_device (unat (iCurrent_Device_Idx s))
                    (pDev\<lparr>bacObj := (bacObj pDev)\<lparr>Object_Name := stored_string val n\<rparr>\<rparr>) s
         in (True, Routed_Device_Inc_Database_Revision s1))
      else (False, s))"

definition Routed_Device_Set_Description ::
  "gw_limits \<Rightarrow> string \<Rightarrow> nat \<Rightarrow> gw_state \<Rightarrow> bool \<times> gw_state" where
  "Routed_Device_Set_Description lim name n s =
     (if n < MAX_DEV_DESC_LEN lim then
        (let pDev = current_device s
         in (True, set_device (unat (iCurrent_Device_Idx s))
                     (pDev\<lparr>Description := stored_string name n\<rparr>) s))
      else (False, s))"

subsection \<open>Adding a device\<close>

definition Add_Routed_Device ::
  "gw_limits \<Rightarrow> uint32_t \<Rightarrow> BACNET_CHARACTER_STRING option \<Rightarrow> string option \<Rightarrow>
     gw_state \<Rightarrow> uint16_t \<times> gw_state" where
  "Add_Routed_Device lim Object_Instance sObject_Name sDescription s =
     (let i = uint (Num_Managed_Devices s) in
      if i < MAX_NUM_DEVICES s then
        (let s1 = s\<lparr>Num_Managed_Devices := Num_Managed_Devices s + 1\<rparr>;
             s2 = s1\<lparr>iCurrent_Device_Idx := word_of_int i\<rparr>;
             s3 = set_device (nat i)
                    ((Devices s2 ! nat i)\<lparr>bacObj := (bacObj (Devices s2 ! nat i))
                        \<lparr>mObject_Type := OBJECT_DEVICE\<rparr>\<rparr>) s2;
             s4 = set_device (nat i)
                    ((Devices s3 ! nat i)\<lparr>bacObj := (bacObj (Devices s3 ! nat i))
                        \<lparr>Object_Instance_Number := Object_Instance\<rparr>\<rparr>) s3;
             s5 = snd (case sObject_Name of
                         Some nm \<Rightarrow>
                           Routed_Device_Set_Object_Name lim
                             (encoding nm) (value_cs nm) (length_cs nm) s4
                       | None \<Rightarrow>
                           Routed_Device_Set_Object_Name lim
                             CHARACTER_UTF8 ''No Name'' (strlen ''No Name'') s4);
             s6 = snd (case sDescription of
                         Some d \<Rightarrow> Routed_Device_Set_Description lim d (strlen d) s5
                       | None \<Rightarrow>
                           Routed_Device_Set_Description lim ''No Descr'' (strlen ''No Descr'') s5);
             s7 = set_device (nat i) ((Devices s6 ! nat i)\<lparr>Database_Revision := 0\<rparr>) s6
         in (word_of_int i, s7))
      else (UINT16_MAX, s))"

subsection \<open>Access by index\<close>

text \<open>
  The two getters return a pointer into \<^verbatim>\<open>Devices[]\<close> or \<^verbatim>\<open>NULL\<close>; the pointer
  is modelled by the index of the slot it points to.
\<close>

definition Get_Routed_Device_Object :: "int \<Rightarrow> gw_state \<Rightarrow> nat option \<times> gw_state" where
  "Get_Routed_Device_Object idx s =
     (if idx = - 1 then (Some (unat (iCurrent_Device_Idx s)), s)
      else if idx \<ge> 0 \<and> idx < MAX_NUM_DEVICES s then
        (Some (nat idx), s\<lparr>iCurrent_Device_Idx := word_of_int idx\<rparr>)
      else (None, s))"

definition Get_Routed_Device_Address :: "int \<Rightarrow> gw_state \<Rightarrow> nat option \<times> gw_state" where
  "Get_Routed_Device_Address idx s =
     (if idx = - 1 then (Some (unat (iCurrent_Device_Idx s)), s)
      else if idx \<ge> 0 \<and> idx < MAX_NUM_DEVICES s then
        (Some (nat idx), s\<lparr>iCurrent_Device_Idx := word_of_int idx\<rparr>)
      else (None, s))"

subsection \<open>Matching a device address\<close>

text \<open>
  The loop \<^verbatim>\<open>for (i = 0; i < dlen; i++) if (a[i] != d[i]) break;\<close>, giving the value
  of \<open>i\<close> when it ends. The source reads both arrays without a bound check; an index
  beyond a list is an octet the model knows nothing about.
\<close>

function adr_compare :: "uint8_t list \<Rightarrow> uint8_t list \<Rightarrow> nat \<Rightarrow> nat \<Rightarrow> nat" where
  "adr_compare a d dlen i =
     (if i < dlen then (if a ! i \<noteq> d ! i then i else adr_compare a d dlen (Suc i))
      else i)"
  by pat_completeness auto
termination
  by (relation "measure (\<lambda>(a, d, dlen, i). dlen - i)") auto

declare adr_compare.simps [simp del]

definition Routed_Device_Address_Lookup ::
  "int \<Rightarrow> uint8_t \<Rightarrow> uint8_t list option \<Rightarrow> gw_state \<Rightarrow> bool \<times> gw_state" where
  "Routed_Device_Address_Lookup idx dlen dadr s =
     (if idx \<ge> 0 \<and> idx < MAX_NUM_DEVICES s then
        (let pDev = Devices s ! nat idx in
         if dlen = 0 then (True, s\<lparr>iCurrent_Device_Idx := word_of_int idx\<rparr>)
         else
           (case dadr of
              None \<Rightarrow> (False, s)
            | Some d \<Rightarrow>
                (let i = adr_compare (adr (bacDevAddr pDev)) d (unat dlen) 0 in
                 if i = unat dlen then (True, s\<lparr>iCurrent_Device_Idx := word_of_int idx\<rparr>)
                 else (False, s))))
      else (False, s))"

subsection \<open>The routing iterator\<close>

text \<open>
  The \<^verbatim>\<open>while\<close> loop of the branch for the gateway's own network: the success
  flag, the index and the state when the loop ends.
\<close>

function GetNext_scan :: "BACNET_ADDRESS \<Rightarrow> int \<Rightarrow> gw_state \<Rightarrow> bool \<times> int \<times> gw_state" where
  "GetNext_scan dest idx s =
     (if idx < MAX_NUM_DEVICES s then
        (let r = Routed_Device_Address_Lookup idx (len dest) (Some (adr dest)) s in
         if fst r then (True, idx + 1, snd r)
         else GetNext_scan dest (idx + 1) (snd r))
      else (False, idx, s))"
  by pat_completeness auto
termination
  by (relation "measure (\<lambda>(dest, idx, s). nat (MAX_NUM_DEVICES s - idx))")
     (auto simp: MAX_NUM_DEVICES_def Routed_Device_Address_Lookup_def Let_def
           split: option.split)

declare GetNext_scan.simps [simp del]

definition Routed_Device_GetNext ::
  "BACNET_ADDRESS \<Rightarrow> int list \<Rightarrow> int \<Rightarrow> gw_state \<Rightarrow> bool \<times> int \<times> gw_state" where
  "Routed_Device_GetNext dest DNET_list cursor s =
     (let dnet = DNET_list ! 0;
          idx = cursor;
          (bSuccess, idx', s') =
            (if idx < 0 \<or> idx \<ge> MAX_NUM_DEVICES s then (False, - 1, s)
             else if net dest = BACNET_BROADCAST_NETWORK then
               (let r = Routed_Device_Address_Lookup idx (len dest) (Some (adr dest)) s
                in (fst r, idx + 1, snd r))
             else if net dest = 0 then
               (let r = Routed_Device_Address_Lookup 0 (len dest) (Some (adr dest)) s
                in (fst r, - 1, snd r))
             else if uint (net dest) = dnet then
               GetNext_scan dest (if idx = 0 then 1 else idx) s
             else (False, idx, s))
      in (bSuccess,
          (if \<not> bSuccess then - 1
           else if idx' = MAX_NUM_DEVICES s then - 1
           else idx'),
          s'))"

subsection \<open>Reachability of a network\<close>

definition Routed_Device_Is_Valid_Network ::
  "uint16_t \<Rightarrow> int list \<Rightarrow> gw_state \<Rightarrow> bool \<times> gw_state" where
  "Routed_Device_Is_Valid_Network dest_net DNET_list s =
     (let dnet = DNET_list ! 0 in
      (if dest_net = BACNET_BROADCAST_NETWORK then True
       else if dest_net = 0 then True
       else if uint dest_net = dnet then True
       else False,
       s))"

subsection \<open>Finding a device by its instance number\<close>

function Instance_To_Index_from :: "uint32_t \<Rightarrow> gw_state \<Rightarrow> nat \<Rightarrow> uint32_t" where
  "Instance_To_Index_from Instance_Number s i =
     (if int i < MAX_NUM_DEVICES s then
        (if Object_Instance_Number (bacObj (Devices s ! i)) = Instance_Number
         then word_of_nat i
         else Instance_To_Index_from Instance_Number s (Suc i))
      else 0)"
  by pat_completeness auto
termination
  by (relation "measure (\<lambda>(n, s, i). length (Devices s) - i)")
     (auto simp: MAX_NUM_DEVICES_def)

declare Instance_To_Index_from.simps [simp del]

definition Routed_Device_Instance_To_Index :: "uint32_t \<Rightarrow> gw_state \<Rightarrow> uint32_t" where
  "Routed_Device_Instance_To_Index Instance_Number s =
     Instance_To_Index_from Instance_Number s 0"

definition Routed_Device_Valid_Object_Instance_Number ::
  "uint32_t \<Rightarrow> gw_state \<Rightarrow> bool \<times> gw_state" where
  "Routed_Device_Valid_Object_Instance_Number object_id s =
     (let s1 = s\<lparr>iCurrent_Device_Idx := ucast (Routed_Device_Instance_To_Index object_id s)\<rparr>;
          pDev = current_device s1
      in (Object_Instance_Number (bacObj pDev) = object_id, s1))"

subsection \<open>Approval of a service for the current device\<close>

datatype BACNET_SERVICES_SUPPORTED =
    SERVICE_SUPPORTED_REINITIALIZE_DEVICE
  | SERVICE_SUPPORTED_DEVICE_COMMUNICATION_CONTROL
  | SERVICE_SUPPORTED_OTHER nat

definition REJECT_REASON_UNRECOGNIZED_SERVICE :: uint8_t where
  "REJECT_REASON_UNRECOGNIZED_SERVICE = 9"

text \<open>
  The encoder of a Reject message lives in \<^verbatim>\<open>reject.c\<close>, outside the source at hand:
  the operation takes it as its first argument. It maps the buffer, the invoke id and
  the reason to the number of octets encoded and the buffer afterwards. A buffer that
  may be \<^verbatim>\<open>NULL\<close> is an option.
\<close>

type_synonym reject_encoder =
  "uint8_t list \<Rightarrow> uint8_t \<Rightarrow> uint8_t \<Rightarrow> int \<times> uint8_t list"

definition Routed_Device_Service_Approval ::
  "reject_encoder \<Rightarrow> BACNET_SERVICES_SUPPORTED \<Rightarrow> int \<Rightarrow> uint8_t list option \<Rightarrow> uint8_t \<Rightarrow>
     gw_state \<Rightarrow> int \<times> uint8_t list option \<times> gw_state" where
  "Routed_Device_Service_Approval reject_encode_apdu service service_argument apdu_buff
       invoke_id s =
     (case service of
        SERVICE_SUPPORTED_REINITIALIZE_DEVICE \<Rightarrow>
          (if iCurrent_Device_Idx s > 0 then
             (case apdu_buff of
                Some buf \<Rightarrow>
                  (let r = reject_encode_apdu buf invoke_id REJECT_REASON_UNRECOGNIZED_SERVICE
                   in (fst r, Some (snd r), s))
              | None \<Rightarrow> (1, None, s))
           else (0, apdu_buff, s))
      | SERVICE_SUPPORTED_DEVICE_COMMUNICATION_CONTROL \<Rightarrow>
          (if iCurrent_Device_Idx s > 0 then
             (case apdu_buff of
                Some buf \<Rightarrow>
                  (let r = reject_encode_apdu buf invoke_id REJECT_REASON_UNRECOGNIZED_SERVICE
                   in (fst r, Some (snd r), s))
              | None \<Rightarrow> (1, None, s))
           else (0, apdu_buff, s))
      | SERVICE_SUPPORTED_OTHER k \<Rightarrow> (0, apdu_buff, s))"

text \<open>
  Modelled from the spec: \<^verbatim>\<open>reject_encode_apdu\<close> (reject.c, not in the source at
  hand), ``a reject-message encoder, given a rejection reason and an invocation
  identifier, producing an encoded protocol reply''. The reply is written at the start
  of the buffer: an octet for the kind of message, the invocation identifier and the
  reason.
\<close>

definition reject_encode_apdu_spec :: reject_encoder where
  "reject_encode_apdu_spec buf invoke_id reason =
     (3, [96, invoke_id, reason] @ drop 3 buf)"

subsection \<open>Writing a property of the current device\<close>














subsection \<open>Notions the properties are stated with\<close>

text \<open>
  The networks a DNET list names, in the words of the specification: the entries before
  the terminating \<open>-1\<close>.
\<close>

definition spec_reachable_networks :: "int list \<Rightarrow> int set" where
  "spec_reachable_networks DNET_list = set (takeWhile (\<lambda>n. n \<noteq> - 1) DNET_list)"

text \<open>The verdict of the address matcher on slot \<open>j\<close> for a destination.\<close>

definition slot_matches :: "BACNET_ADDRESS \<Rightarrow> gw_state \<Rightarrow> nat \<Rightarrow> bool" where
  "slot_matches dest s j =
     fst (Routed_Device_Address_Lookup (int j) (len dest) (Some (adr dest)) s)"

text \<open>
  Modelled from the spec: the loop of the network layer around \<^verbatim>\<open>get_next\<close> (not in
  the source at hand), which ``calls once per inbound packet, looping until the sentinel
  cursor is returned, dispatching the packet to each matched device in turn''. The
  result lists the current device of every call that reported a match, in order; the
  loop is given fuel, and running out of it is \<open>None\<close>.
\<close>

fun GetNext_sweep ::
  "nat \<Rightarrow> BACNET_ADDRESS \<Rightarrow> int list \<Rightarrow> int \<Rightarrow> gw_state \<Rightarrow> (uint16_t list \<times> gw_state) option" where
  "GetNext_sweep 0 dest DNET_list cursor s = None"
| "GetNext_sweep (Suc fuel) dest DNET_list cursor s =
     (let r = Routed_Device_GetNext dest DNET_list cursor s;
          hit = (if fst r then [iCurrent_Device_Idx (snd (snd r))] else [])
      in
      if fst (snd r) = - 1 then Some (hit, snd (snd r))
      else map_option (\<lambda>(v, t). (hit @ v, t))
             (GetNext_sweep fuel dest DNET_list (fst (snd r)) (snd (snd r))))"

text \<open>Whether slot \<open>j\<close> holds the instance number \<open>q\<close>.\<close>

definition holds_instance :: "gw_state \<Rightarrow> uint32_t \<Rightarrow> nat \<Rightarrow> bool" where
  "holds_instance s q j = (Object_Instance_Number (bacObj (Devices s ! j)) = q)"

text \<open>
  The current device is a slot of the table; it is an occupied slot (one of the
  \<^verbatim>\<open>Num_Managed_Devices\<close> first); an operation has moved the current device inside
  the table and touched nothing else.
\<close>

definition in_table :: "gw_state \<Rightarrow> bool" where
  "in_table s = (unat (iCurrent_Device_Idx s) < length (Devices s))"

definition occupied :: "gw_state \<Rightarrow> bool" where
  "occupied s = (unat (iCurrent_Device_Idx s) < unat (Num_Managed_Devices s))"

definition context_moved_within_table :: "gw_state \<Rightarrow> gw_state \<Rightarrow> bool" where
  "context_moved_within_table s t =
     (in_table t \<and> Devices t = Devices s \<and> Num_Managed_Devices t = Num_Managed_Devices s)"

text \<open>The two administrative services.\<close>

definition is_administrative :: "BACNET_SERVICES_SUPPORTED \<Rightarrow> bool" where
  "is_administrative service =
     (service = SERVICE_SUPPORTED_REINITIALIZE_DEVICE
      \<or> service = SERVICE_SUPPORTED_DEVICE_COMMUNICATION_CONTROL)"




subsection \<open>A table to evaluate on\<close>

text \<open>
  Three slots, the first two occupied: the gateway (instance 100, address octet 1) and a
  routed device (instance 200, address octet 2), both on network 10; the third slot is
  as static storage starts.
\<close>

definition example_address :: "uint16_t \<Rightarrow> uint8_t \<Rightarrow> uint8_t \<Rightarrow> BACNET_ADDRESS" where
  "example_address n l octet =
     \<lparr>mac_len = 0, mac = replicate 7 0, net = n, len = l, adr = octet # replicate 6 0\<rparr>"

definition example_device :: "uint32_t \<Rightarrow> uint8_t \<Rightarrow> DEVICE_OBJECT_DATA" where
  "example_device inst octet =
     \<lparr>bacObj = \<lparr>mObject_Type = OBJECT_DEVICE, Object_Instance_Number = inst,
                Object_Name = ''No Name''\<rparr>,
      bacDevAddr = example_address 10 1 octet, Description = ''No Descr'',
      Database_Revision = 0\<rparr>"

definition example_state :: gw_state where
  "example_state =
     \<lparr>Devices = [example_device 100 1, example_device 200 2, zero_device 7],
      Num_Managed_Devices = 2, iCurrent_Device_Idx = 0\<rparr>"

text \<open>
  String limits; a table of two slots, both occupied, with the routed device current;
  and stand-ins for the collaborators of the write path: the validators as modelled
  from the spec, a decoder that fails on an empty payload and otherwise yields a value
  whose tag is the first octet, whose object identifier is a device with an instance
  number beyond the maximum and whose character string has one character for each
  further octet, and a plain write path that refuses.
\<close>

definition example_limits :: gw_limits where
  "example_limits = \<lparr>MAX_DEV_NAME_LEN = 32, MAX_DEV_DESC_LEN = 64\<rparr>"

definition full_state :: gw_state where
  "full_state =
     \<lparr>Devices = [example_device 100 1, example_device 200 2],
      Num_Managed_Devices = 2, iCurrent_Device_Idx = 1\<rparr>"




section \<open>Properties\<close>

subsection \<open>Reachability\<close>

text \<open>
  C4, as amended. \<^verbatim>\<open>Routed_Device_Is_Valid_Network\<close> answers true exactly when the
  destination network is the broadcast network, or 0, or the first entry of the DNET
  list (the gateway's own virtual network); no later entry is consulted. It returns the
  state it was given: it reads no table state and leaves the current device alone.
\<close>

theorem Is_Valid_Network_first_entry:
  "Routed_Device_Is_Valid_Network dest_net (dnet # rest) s =
     (dest_net = BACNET_BROADCAST_NETWORK \<or> dest_net = 0 \<or> uint dest_net = dnet, s)"
  by (simp add: Routed_Device_Is_Valid_Network_def)

theorem Is_Valid_Network_first_entry_witness:
  "Routed_Device_Is_Valid_Network 10 [10, 20, - 1] (initial_state 1 7) = (True, initial_state 1 7)
   \<and> Routed_Device_Is_Valid_Network 0 [10, 20, - 1] (initial_state 1 7) = (True, initial_state 1 7)
   \<and> Routed_Device_Is_Valid_Network 65535 [10, 20, - 1] (initial_state 1 7) = (True, initial_state 1 7)
   \<and> Routed_Device_Is_Valid_Network 30 [10, 20, - 1] (initial_state 1 7) = (False, initial_state 1 7)"
  using Is_Valid_Network_first_entry [of 10 10 "[20, - 1]" "initial_state 1 7"]
        Is_Valid_Network_first_entry [of 0 10 "[20, - 1]" "initial_state 1 7"]
        Is_Valid_Network_first_entry [of 65535 10 "[20, - 1]" "initial_state 1 7"]
        Is_Valid_Network_first_entry [of 30 10 "[20, - 1]" "initial_state 1 7"]
  by (simp add: BACNET_BROADCAST_NETWORK_def)

text \<open>
  C4 as stated fails: network 20 is an entry of the list \<open>[10, 20, -1]\<close>, before the
  terminator, and is not reported reachable.
\<close>

theorem Is_Valid_Network_listed_counterexample:
  "(20::int) \<in> spec_reachable_networks [10, 20, - 1]
   \<and> uint (20 :: uint16_t) = 20
   \<and> fst (Routed_Device_Is_Valid_Network 20 [10, 20, - 1] (initial_state 1 7)) = False"
  by (simp add: spec_reachable_networks_def Routed_Device_Is_Valid_Network_def
        BACNET_BROADCAST_NETWORK_def)

subsection \<open>The address matcher and the scan\<close>

lemma Address_Lookup_snd:
  "snd (Routed_Device_Address_Lookup idx dlen dadr s) =
     (if fst (Routed_Device_Address_Lookup idx dlen dadr s)
      then s\<lparr>iCurrent_Device_Idx := word_of_int idx\<rparr> else s)"
  by (simp add: Routed_Device_Address_Lookup_def Let_def split: option.split)

lemma Address_Lookup_ctx_irrelevant:
  "fst (Routed_Device_Address_Lookup idx dlen dadr (s\<lparr>iCurrent_Device_Idx := c\<rparr>)) =
   fst (Routed_Device_Address_Lookup idx dlen dadr s)"
  by (simp add: Routed_Device_Address_Lookup_def MAX_NUM_DEVICES_def Let_def split: option.split)

lemma Address_Lookup_broadcast_mac:
  "0 \<le> idx \<Longrightarrow> idx < MAX_NUM_DEVICES s \<Longrightarrow>
   Routed_Device_Address_Lookup idx 0 dadr s = (True, s\<lparr>iCurrent_Device_Idx := word_of_int idx\<rparr>)"
  by (simp add: Routed_Device_Address_Lookup_def)

lemma slot_matches_ctx [simp]:
  "slot_matches dest (s\<lparr>iCurrent_Device_Idx := c\<rparr>) = slot_matches dest s"
  by (rule ext) (simp add: slot_matches_def Address_Lookup_ctx_irrelevant)

lemmas example_defs =
  example_state_def example_device_def example_address_def zero_device_def zero_address_def
  MAX_NUM_DEVICES_def BACNET_BROADCAST_NETWORK_def

lemma example_matches [simp]:
  "slot_matches (example_address n 1 o1) example_state 0 = (o1 = 1)"
  "slot_matches (example_address n 1 o1) example_state (Suc 0) = (o1 = 2)"
  "slot_matches (example_address n 1 o1) example_state 2 = (o1 = 0)"
  "slot_matches (example_address n 0 o1) example_state 0"
  "slot_matches (example_address n 0 o1) example_state (Suc 0)"
  "slot_matches (example_address n 0 o1) example_state 2"
  by (auto simp add: slot_matches_def Routed_Device_Address_Lookup_def example_defs
      adr_compare.simps [of _ _ _ 0] adr_compare.simps [of _ _ _ "Suc 0"] Let_def)

lemma find_upt_Some:
  "find P [i ..< n] = Some j \<Longrightarrow> i \<le> j \<and> j < n \<and> P j \<and> (\<forall>k. i \<le> k \<and> k < j \<longrightarrow> \<not> P k)"
proof (induction "n - i" arbitrary: i)
  case 0
  then show ?case by simp
next
  case (Suc m)
  then have lt: "i < n" by simp
  then have upt: "[i ..< n] = i # [Suc i ..< n]" by (simp add: upt_conv_Cons)
  show ?case
  proof (cases "P i")
    case True
    with Suc.prems lt show ?thesis by (auto simp add: upt)
  next
    case False
    with Suc.prems have "find P [Suc i ..< n] = Some j" by (simp add: upt)
    moreover have "m = n - Suc i" using Suc.hyps(2) by simp
    ultimately have "Suc i \<le> j \<and> j < n \<and> P j \<and> (\<forall>k. Suc i \<le> k \<and> k < j \<longrightarrow> \<not> P k)"
      using Suc.hyps(1) by blast
    with False show ?thesis
      by (metis Suc_leD Suc_leI le_neq_implies_less)
  qed
qed

lemma find_upt_None:
  "find P [i ..< n] = None \<longleftrightarrow> (\<forall>k. i \<le> k \<and> k < n \<longrightarrow> \<not> P k)"
  by (auto simp: find_None_iff)

lemma GetNext_local_step:
  assumes "0 \<le> cursor" and "cursor < MAX_NUM_DEVICES s" and "net dest = 0"
  shows "Routed_Device_GetNext dest (dnet # rest) cursor s =
           (fst (Routed_Device_Address_Lookup 0 (len dest) (Some (adr dest)) s),
            - 1,
            if fst (Routed_Device_Address_Lookup 0 (len dest) (Some (adr dest)) s)
            then s\<lparr>iCurrent_Device_Idx := 0\<rparr> else s)"
  using assms
  by (simp add: Routed_Device_GetNext_def BACNET_BROADCAST_NETWORK_def Let_def
        Address_Lookup_snd)

lemma GetNext_broadcast_step:
  assumes "0 \<le> cursor" and "cursor < MAX_NUM_DEVICES s"
    and "net dest = BACNET_BROADCAST_NETWORK"
  shows "Routed_Device_GetNext dest (dnet # rest) cursor s =
           (if fst (Routed_Device_Address_Lookup cursor (len dest) (Some (adr dest)) s)
            then (True,
                  if cursor + 1 = MAX_NUM_DEVICES s then - 1 else cursor + 1,
                  s\<lparr>iCurrent_Device_Idx := word_of_int cursor\<rparr>)
            else (False, - 1, s))"
  using assms
  by (simp add: Routed_Device_GetNext_def Let_def Address_Lookup_snd)

lemma sweep_broadcast:
  assumes "net dest = BACNET_BROADCAST_NETWORK"
  shows "c < length (Devices s) \<Longrightarrow> length (Devices s) - c \<le> fuel \<Longrightarrow>
         map_option fst (GetNext_sweep fuel dest (dnet # rest) (int c) s) =
           Some (map word_of_nat (takeWhile (slot_matches dest s) [c ..< length (Devices s)]))"
proof (induction fuel arbitrary: c s)
  case 0
  then show ?case by simp
next
  case (Suc fuel)
  let ?n = "length (Devices s)"
  have cur: "0 \<le> int c" "int c < MAX_NUM_DEVICES s"
    using Suc.prems by (simp_all add: MAX_NUM_DEVICES_def)
  have upt: "[c ..< ?n] = c # [Suc c ..< ?n]"
    using Suc.prems by (simp add: upt_conv_Cons)
  note one = GetNext_broadcast_step [OF cur assms, of dnet rest]
  have m: "fst (Routed_Device_Address_Lookup (int c) (len dest) (Some (adr dest)) s) =
             slot_matches dest s c"
    by (simp add: slot_matches_def)
  note one = one [unfolded m]
  show ?case
  proof (cases "slot_matches dest s c")
    case False
    then show ?thesis
      using one by (simp add: upt)
  next
    case True
    show ?thesis
    proof (cases "Suc c = ?n")
      case last: True
      then show ?thesis
        using one True by (simp add: upt MAX_NUM_DEVICES_def)
    next
      case more: False
      let ?s' = "s\<lparr>iCurrent_Device_Idx := word_of_int (int c)\<rparr>"
      have "Suc c < length (Devices ?s')" "length (Devices ?s') - Suc c \<le> fuel"
        using more Suc.prems by simp_all
      from Suc.IH [OF this]
      have IH: "map_option fst (GetNext_sweep fuel dest (dnet # rest) (int (Suc c)) ?s') =
                  Some (map word_of_nat (takeWhile (slot_matches dest s) [Suc c ..< ?n]))"
        by simp
      have neq: "int c + 1 \<noteq> MAX_NUM_DEVICES s" "int c + 1 \<noteq> - 1"
        using more by (simp_all add: MAX_NUM_DEVICES_def)
      show ?thesis
        using one True neq IH
        by (simp add: upt option.map_comp comp_def split_def add.commute)
    qed
  qed
qed

lemma GetNext_scan_find:
  "0 \<le> idx \<Longrightarrow>
   GetNext_scan dest idx s =
     (case find (slot_matches dest s) [nat idx ..< length (Devices s)] of
        None \<Rightarrow> (False, max idx (MAX_NUM_DEVICES s), s)
      | Some j \<Rightarrow> (True, int j + 1, s\<lparr>iCurrent_Device_Idx := word_of_nat j\<rparr>))"
proof (induction dest idx s rule: GetNext_scan.induct)
  case (1 dest idx s)
  show ?case
  proof (cases "idx < MAX_NUM_DEVICES s")
    case False
    then show ?thesis
      using "1.prems" by (simp add: GetNext_scan.simps [of dest idx s] MAX_NUM_DEVICES_def)
  next
    case True
    let ?r = "Routed_Device_Address_Lookup idx (len dest) (Some (adr dest)) s"
    have upt: "[nat idx ..< length (Devices s)] = nat idx # [nat (idx + 1) ..< length (Devices s)]"
      using True "1.prems" by (simp add: upt_conv_Cons MAX_NUM_DEVICES_def nat_add_distrib)
    have m: "slot_matches dest s (nat idx) = fst ?r"
      using "1.prems" by (simp add: slot_matches_def)
    show ?thesis
    proof (cases "fst ?r")
      case hit: True
      then show ?thesis
        using True "1.prems"
        by (simp add: GetNext_scan.simps [of dest idx s] upt m Address_Lookup_snd)
    next
      case miss: False
      have s: "snd ?r = s" using miss by (simp add: Address_Lookup_snd)
      have "GetNext_scan dest (idx + 1) (snd ?r) =
              (case find (slot_matches dest (snd ?r)) [nat (idx + 1) ..< length (Devices (snd ?r))] of
                 None \<Rightarrow> (False, max (idx + 1) (MAX_NUM_DEVICES (snd ?r)), snd ?r)
               | Some j \<Rightarrow> (True, int j + 1, (snd ?r)\<lparr>iCurrent_Device_Idx := word_of_nat j\<rparr>))"
        using "1.IH" [OF True refl miss] "1.prems" by simp
      then show ?thesis
        using True miss "1.prems"
        by (simp add: GetNext_scan.simps [of dest idx s] upt m s max_def split: option.split)
    qed
  qed
qed

subsection \<open>Broadcast network\<close>

text \<open>
  C1, as amended. For a destination on the broadcast network and a cursor that names a
  slot of the table, \<^verbatim>\<open>Routed_Device_GetNext\<close> tests exactly the slot the cursor
  names. When the slot matches, the cursor becomes the incoming cursor plus one (the
  sentinel \<open>-1\<close> when that equals the capacity) and the slot becomes the current device;
  when it does not match, the cursor becomes the sentinel and the state is unchanged.
  Repeated calls under the sentinel rule therefore visit the slots of the table,
  occupied or not, in order from the cursor up to the first one that does not match;
  for a MAC broadcast (address length 0), which every slot matches, they visit every
  slot of the table exactly once.
\<close>

theorem GetNext_broadcast:
  assumes "net dest = BACNET_BROADCAST_NETWORK"
    and "0 \<le> cursor" and "cursor < MAX_NUM_DEVICES s"
  shows "Routed_Device_GetNext dest (dnet # rest) cursor s =
           (if slot_matches dest s (nat cursor)
            then (True,
                  if cursor + 1 = MAX_NUM_DEVICES s then - 1 else cursor + 1,
                  s\<lparr>iCurrent_Device_Idx := word_of_int cursor\<rparr>)
            else (False, - 1, s))
         \<and> (length (Devices s) - nat cursor \<le> fuel \<longrightarrow>
              map_option fst (GetNext_sweep fuel dest (dnet # rest) cursor s) =
                Some (map word_of_nat
                       (takeWhile (slot_matches dest s) [nat cursor ..< length (Devices s)])))
         \<and> (length (Devices s) - nat cursor \<le> fuel \<longrightarrow> len dest = 0 \<longrightarrow>
              map_option fst (GetNext_sweep fuel dest (dnet # rest) cursor s) =
                Some (map word_of_nat [nat cursor ..< length (Devices s)]))"
proof -
  have c: "nat cursor < length (Devices s)" "int (nat cursor) = cursor"
    using assms by (simp_all add: MAX_NUM_DEVICES_def)
  have all: "len dest = 0 \<Longrightarrow> j < length (Devices s) \<Longrightarrow> slot_matches dest s j" for j
    by (simp add: slot_matches_def Routed_Device_Address_Lookup_def MAX_NUM_DEVICES_def)
  have tw: "len dest = 0 \<Longrightarrow>
            takeWhile (slot_matches dest s) [nat cursor ..< length (Devices s)] =
              [nat cursor ..< length (Devices s)]"
    by (rule takeWhile_eq_all_conv [THEN iffD2]) (simp add: all)
  have sw: "length (Devices s) - nat cursor \<le> fuel \<Longrightarrow>
            map_option fst (GetNext_sweep fuel dest (dnet # rest) cursor s) =
              Some (map word_of_nat
                     (takeWhile (slot_matches dest s) [nat cursor ..< length (Devices s)]))"
    using sweep_broadcast [OF assms(1) c(1), of fuel dnet rest] c(2) by simp
  have sw0: "length (Devices s) - nat cursor \<le> fuel \<Longrightarrow> len dest = 0 \<Longrightarrow>
            map_option fst (GetNext_sweep fuel dest (dnet # rest) cursor s) =
              Some (map word_of_nat [nat cursor ..< length (Devices s)])"
    using sw tw by simp
  have m: "fst (Routed_Device_Address_Lookup cursor (len dest) (Some (adr dest)) s) =
             slot_matches dest s (nat cursor)"
    using assms(2) by (simp add: slot_matches_def)
  have one: "Routed_Device_GetNext dest (dnet # rest) cursor s =
           (if slot_matches dest s (nat cursor)
            then (True,
                  if cursor + 1 = MAX_NUM_DEVICES s then - 1 else cursor + 1,
                  s\<lparr>iCurrent_Device_Idx := word_of_int cursor\<rparr>)
            else (False, - 1, s))"
    using GetNext_broadcast_step [OF assms(2,3,1), of dnet rest] by (simp only: m)
  show ?thesis
    using one sw sw0 by blast
qed

theorem GetNext_broadcast_witness:
  "net (example_address 65535 0 0) = BACNET_BROADCAST_NETWORK
   \<and> (0::int) \<le> 0 \<and> 0 < MAX_NUM_DEVICES example_state
   \<and> Routed_Device_GetNext (example_address 65535 0 0) [10, - 1] 0 example_state =
       (True, 1, example_state)
   \<and> map_option fst (GetNext_sweep 3 (example_address 65535 0 0) [10, - 1] 0 example_state) =
       Some [0, 1, 2]
   \<and> map_option fst (GetNext_sweep 3 (example_address 65535 1 1) [10, - 1] 0 example_state) =
       Some [0]"
proof -
  have h: "net (example_address 65535 0 0) = BACNET_BROADCAST_NETWORK"
          "net (example_address 65535 1 1) = BACNET_BROADCAST_NETWORK"
          "(0::int) \<le> 0" "0 < MAX_NUM_DEVICES example_state"
    by (simp_all add: example_defs)
  have n: "length (Devices example_state) = 3" "len (example_address 65535 0 0) = 0"
          "[0 ..< 3] = [0, 1, 2]"
          "example_state\<lparr>iCurrent_Device_Idx := 0\<rparr> = example_state"
    by (simp_all add: example_defs upt_conv_Cons)
  show ?thesis
    using h GetNext_broadcast [OF h(1) h(3) h(4), of 10 "[- 1]" 3]
      GetNext_broadcast [OF h(2) h(3) h(4), of 10 "[- 1]" 3]
    by (simp add: n MAX_NUM_DEVICES_def)
qed

text \<open>
  C1 as stated fails: on the broadcast network, an address with octet 2 does not match
  slot 0, and the call returns the sentinel instead of cursor 1 (the capacity is 3). The
  sweep ends there, and slot 1, which is occupied and has this address, is never visited.
\<close>

theorem GetNext_broadcast_counterexample:
  "net (example_address 65535 1 2) = BACNET_BROADCAST_NETWORK
   \<and> Routed_Device_GetNext (example_address 65535 1 2) [10, - 1] 0 example_state =
       (False, - 1, example_state)
   \<and> (0::int) + 1 \<noteq> MAX_NUM_DEVICES example_state
   \<and> slot_matches (example_address 65535 1 2) example_state 1
   \<and> GetNext_sweep 3 (example_address 65535 1 2) [10, - 1] 0 example_state =
       Some ([], example_state)"
proof -
  have h: "net (example_address 65535 1 2) = BACNET_BROADCAST_NETWORK"
          "(0::int) \<le> 0" "0 < MAX_NUM_DEVICES example_state"
    by (simp_all add: example_defs)
  have one: "Routed_Device_GetNext (example_address 65535 1 2) [10, - 1] 0 example_state =
       (False, - 1, example_state)"
    using GetNext_broadcast_step [OF h(2) h(3) h(1), of 10 "[- 1]"]
      example_matches(1) [of 65535 2]
    by (simp add: slot_matches_def)
  have sw: "GetNext_sweep (Suc n) (example_address 65535 1 2) [10, - 1] 0 example_state =
       Some ([], example_state)" for n
    using one by simp
  have cap: "(0::int) + 1 \<noteq> MAX_NUM_DEVICES example_state"
    by (simp add: example_defs)
  show ?thesis
    using h(1) one cap sw [of 2] by simp
qed

subsection \<open>Local network\<close>

text \<open>
  C6. For a destination whose network number is 0 and a cursor that names a slot of the
  table, \<^verbatim>\<open>Routed_Device_GetNext\<close> tests slot 0 only and returns the sentinel \<open>-1\<close>
  as cursor whether or not slot 0 matched; on a match the current device is slot 0, and
  otherwise the state is unchanged, so no routed device is offered the message.
\<close>

theorem GetNext_local:
  assumes "net dest = 0" and "0 \<le> cursor" and "cursor < MAX_NUM_DEVICES s"
  shows "Routed_Device_GetNext dest (dnet # rest) cursor s =
           (if slot_matches dest s 0
            then (True, - 1, s\<lparr>iCurrent_Device_Idx := 0\<rparr>)
            else (False, - 1, s))"
  using GetNext_local_step [OF assms(2,3,1), of dnet rest]
  by (simp add: slot_matches_def)

theorem GetNext_local_witness:
  "net (example_address 0 1 1) = 0 \<and> (1::int) \<ge> 0 \<and> 1 < MAX_NUM_DEVICES example_state
   \<and> Routed_Device_GetNext (example_address 0 1 1) [10, - 1] 1 example_state =
       (True, - 1, example_state)
   \<and> Routed_Device_GetNext (example_address 0 1 2) [10, - 1] 1 example_state =
       (False, - 1, example_state)"
proof -
  have h: "net (example_address 0 1 1) = 0" "net (example_address 0 1 2) = 0"
          "(0::int) \<le> 1" "1 < MAX_NUM_DEVICES example_state"
    by (simp_all add: example_defs)
  have n: "example_state\<lparr>iCurrent_Device_Idx := 0\<rparr> = example_state"
    by (simp add: example_defs)
  show ?thesis
    using h GetNext_local [OF h(1) h(3) h(4), of 10 "[- 1]"]
      GetNext_local [OF h(2) h(3) h(4), of 10 "[- 1]"]
    by (simp add: n)
qed

subsection \<open>The gateway's own virtual network\<close>

text \<open>
  C7, as amended. For a destination on the gateway's own virtual network (the first
  entry of the DNET list, neither 0 nor the broadcast network):
  when the cursor names a slot of the table, \<^verbatim>\<open>Routed_Device_GetNext\<close> scans the
  slots from \<open>max cursor 1\<close> upwards, so never slot 0, up to the first one that matches;
  on a match that slot becomes the current device and the cursor is one past it (the
  sentinel \<open>-1\<close> when that equals the capacity); with no match the cursor is the
  sentinel and the state is unchanged; in a table of at most 65536 slots a call that
  reports a match never leaves slot 0 as the current device.
  When the cursor names no slot of the table (it is negative, the sentinel included,
  or at least the capacity), no slot is tested: the call reports no match, returns the
  sentinel and leaves the state unchanged.
\<close>

theorem GetNext_virtual:
  assumes "net dest \<noteq> BACNET_BROADCAST_NETWORK" and "net dest \<noteq> 0"
    and "uint (net dest) = dnet"
  shows "(0 \<le> cursor \<and> cursor < MAX_NUM_DEVICES s \<longrightarrow>
            Routed_Device_GetNext dest (dnet # rest) cursor s =
              (case find (slot_matches dest s) [nat (max cursor 1) ..< length (Devices s)] of
                 None \<Rightarrow> (False, - 1, s)
               | Some j \<Rightarrow>
                   (True,
                    if int j + 1 = MAX_NUM_DEVICES s then - 1 else int j + 1,
                    s\<lparr>iCurrent_Device_Idx := word_of_nat j\<rparr>)))
         \<and> (0 \<le> cursor \<and> cursor < MAX_NUM_DEVICES s \<and> length (Devices s) \<le> 65536
              \<and> fst (Routed_Device_GetNext dest (dnet # rest) cursor s) \<longrightarrow>
              iCurrent_Device_Idx (snd (snd (Routed_Device_GetNext dest (dnet # rest) cursor s)))
                \<noteq> 0)
         \<and> (cursor < 0 \<or> MAX_NUM_DEVICES s \<le> cursor \<longrightarrow>
              Routed_Device_GetNext dest (dnet # rest) cursor s = (False, - 1, s))"
proof -
  let ?found = "find (slot_matches dest s) [nat (max cursor 1) ..< length (Devices s)]"
  have eq: "Routed_Device_GetNext dest (dnet # rest) cursor s =
           (case ?found of
              None \<Rightarrow> (False, - 1, s)
            | Some j \<Rightarrow>
                (True,
                 if int j + 1 = MAX_NUM_DEVICES s then - 1 else int j + 1,
                 s\<lparr>iCurrent_Device_Idx := word_of_nat j\<rparr>))"
    if inside: "0 \<le> cursor" "cursor < MAX_NUM_DEVICES s"
  proof -
    have st: "(if cursor = 0 then 1 else cursor) = max cursor 1"
      using inside(1) by (simp add: max_def)
    have "Routed_Device_GetNext dest (dnet # rest) cursor s =
            (let r = GetNext_scan dest (max cursor 1) s
             in (fst r,
                 if \<not> fst r then - 1
                 else if fst (snd r) = MAX_NUM_DEVICES s then - 1 else fst (snd r),
                 snd (snd r)))"
      using assms inside by (simp add: Routed_Device_GetNext_def Let_def st split_def)
    also have "\<dots> =
             (case ?found of
                None \<Rightarrow> (False, - 1, s)
              | Some j \<Rightarrow>
                  (True,
                   if int j + 1 = MAX_NUM_DEVICES s then - 1 else int j + 1,
                   s\<lparr>iCurrent_Device_Idx := word_of_nat j\<rparr>))"
      by (simp add: GetNext_scan_find Let_def split: option.split)
    finally show ?thesis .
  qed
  have nz: "iCurrent_Device_Idx (snd (snd (Routed_Device_GetNext dest (dnet # rest) cursor s)))
              \<noteq> 0"
    if inside: "0 \<le> cursor" "cursor < MAX_NUM_DEVICES s"
      and small: "length (Devices s) \<le> 65536"
      and hit: "fst (Routed_Device_GetNext dest (dnet # rest) cursor s)"
  proof (cases ?found)
    case None
    with hit eq [OF inside] show ?thesis by simp
  next
    case (Some j)
    have "1 \<le> nat (max cursor 1)" by simp
    with find_upt_Some [OF Some] have j: "1 \<le> j" "j < length (Devices s)"
      by linarith+
    then have "unat (word_of_nat j :: uint16_t) = j"
      using small by (simp add: unat_of_nat)
    then have "(word_of_nat j :: uint16_t) \<noteq> 0"
      using j(1) by (metis not_one_le_zero unat_0)
    then show ?thesis using Some eq [OF inside] by simp
  qed
  have out: "Routed_Device_GetNext dest (dnet # rest) cursor s = (False, - 1, s)"
    if "cursor < 0 \<or> MAX_NUM_DEVICES s \<le> cursor"
    using that by (auto simp add: Routed_Device_GetNext_def)
  show ?thesis
    using eq nz out by blast
qed

theorem GetNext_virtual_witness:
  "net (example_address 10 1 2) \<noteq> BACNET_BROADCAST_NETWORK \<and> net (example_address 10 1 2) \<noteq> 0
   \<and> uint (net (example_address 10 1 2)) = 10
   \<and> (0::int) \<le> 0 \<and> 0 < MAX_NUM_DEVICES example_state
   \<and> Routed_Device_GetNext (example_address 10 1 2) [10, - 1] 0 example_state =
       (True, 2, example_state\<lparr>iCurrent_Device_Idx := 1\<rparr>)
   \<and> Routed_Device_GetNext (example_address 10 1 1) [10, - 1] 0 example_state =
       (False, - 1, example_state)
   \<and> length (Devices example_state) \<le> 65536
   \<and> fst (Routed_Device_GetNext (example_address 10 1 2) [10, - 1] 0 example_state)
   \<and> iCurrent_Device_Idx
         (snd (snd (Routed_Device_GetNext (example_address 10 1 2) [10, - 1] 0 example_state)))
       \<noteq> 0
   \<and> MAX_NUM_DEVICES example_state \<le> 3
   \<and> Routed_Device_GetNext (example_address 10 1 2) [10, - 1] 3 example_state =
       (False, - 1, example_state)"
proof -
  have h: "net (example_address 10 1 2) \<noteq> BACNET_BROADCAST_NETWORK"
          "net (example_address 10 1 2) \<noteq> 0"
          "uint (net (example_address 10 1 2)) = 10"
          "net (example_address 10 1 1) \<noteq> BACNET_BROADCAST_NETWORK"
          "net (example_address 10 1 1) \<noteq> 0"
          "uint (net (example_address 10 1 1)) = 10"
    by (simp_all add: example_defs)
  have c: "(0::int) \<le> 0" "0 < MAX_NUM_DEVICES example_state"
    "length (Devices example_state) \<le> 65536" "MAX_NUM_DEVICES example_state \<le> 3"
    by (simp_all add: example_defs)
  have n: "[Suc 0 ..< length (Devices example_state)] = [Suc 0, 2]"
          "MAX_NUM_DEVICES example_state = 3"
    by (simp_all add: example_defs upt_conv_Cons)
  note t0 = GetNext_virtual [OF h(1) h(2) h(3), of 0 example_state "[- 1]"]
  note t1 = GetNext_virtual [OF h(4) h(5) h(6), of 0 example_state "[- 1]"]
  note t3 = GetNext_virtual [OF h(1) h(2) h(3), of 3 example_state "[- 1]"]
  have a: "Routed_Device_GetNext (example_address 10 1 2) [10, - 1] 0 example_state =
       (True, 2, example_state\<lparr>iCurrent_Device_Idx := 1\<rparr>)"
    using t0 [THEN conjunct1] c by (simp add: n)
  have b: "Routed_Device_GetNext (example_address 10 1 1) [10, - 1] 0 example_state =
       (False, - 1, example_state)"
    using t1 [THEN conjunct1] c by (simp add: n)
  have hit: "fst (Routed_Device_GetNext (example_address 10 1 2) [10, - 1] 0 example_state)"
    by (simp add: a)
  have nz: "iCurrent_Device_Idx
         (snd (snd (Routed_Device_GetNext (example_address 10 1 2) [10, - 1] 0 example_state)))
       \<noteq> 0"
    using t0 c hit by blast
  have out: "Routed_Device_GetNext (example_address 10 1 2) [10, - 1] 3 example_state =
       (False, - 1, example_state)"
    using t3 c(4) by blast
  show ?thesis
    using h c a b hit nz out by blast
qed

text \<open>
  C7 as stated fails for a cursor that names no slot: with the sentinel \<open>-1\<close> as
  incoming cursor the call reports no match, although the scan from \<open>max (-1) 1\<close>, which
  the claim describes, finds slot 1.
\<close>

theorem GetNext_virtual_sentinel_counterexample:
  "net (example_address 10 1 2) \<noteq> BACNET_BROADCAST_NETWORK \<and> net (example_address 10 1 2) \<noteq> 0
   \<and> uint (net (example_address 10 1 2)) = 10
   \<and> find (slot_matches (example_address 10 1 2) example_state)
         [nat (max (- 1) 1) ..< length (Devices example_state)] = Some 1
   \<and> Routed_Device_GetNext (example_address 10 1 2) [10, - 1] (- 1) example_state =
       (False, - 1, example_state)"
proof -
  have n: "[Suc 0 ..< length (Devices example_state)] = [Suc 0, 2]"
    by (simp add: example_defs upt_conv_Cons)
  have f: "find (slot_matches (example_address 10 1 2) example_state)
         [nat (max (- 1) 1) ..< length (Devices example_state)] = Some 1"
    by (simp add: n)
  have g: "Routed_Device_GetNext (example_address 10 1 2) [10, - 1] (- 1) example_state =
       (False, - 1, example_state)"
    by (simp add: Routed_Device_GetNext_def)
  show ?thesis
    using f g by (simp add: example_defs)
qed

subsection \<open>Adding a device\<close>

lemma strlen_defaults [simp]:
  "strlen ''No Name'' = 7" "strlen ''No Descr'' = 8"
  "stored_string ''No Name'' 7 = ''No Name''" "stored_string ''No Descr'' 8 = ''No Descr''"
  by (simp_all add: strlen_def stored_string_def c_str_def)

lemma uint_less_length: "(uint (w :: uint16_t) < int n) = (unat w < n)"
  by (metis nat_less_iff uint_nonnegative unat_eq_nat_uint)

lemma Add_Routed_Device_full:
  "\<not> unat (Num_Managed_Devices s) < length (Devices s) \<Longrightarrow>
   Add_Routed_Device lim inst nm descr s = (UINT16_MAX, s)"
  by (simp add: Add_Routed_Device_def MAX_NUM_DEVICES_def Let_def uint_less_length)

lemma Add_Routed_Device_room:
  assumes "unat (Num_Managed_Devices s) < length (Devices s)"
  shows "Add_Routed_Device lim inst nm descr s =
     (Num_Managed_Devices s,
      s\<lparr>Devices := (Devices s)[unat (Num_Managed_Devices s) :=
           (Devices s ! unat (Num_Managed_Devices s))
           \<lparr>bacObj := (bacObj (Devices s ! unat (Num_Managed_Devices s)))
              \<lparr>mObject_Type := OBJECT_DEVICE,
               Object_Instance_Number := inst,
               Object_Name :=
                 (case nm of
                    None \<Rightarrow>
                      if 7 < MAX_DEV_NAME_LEN lim then ''No Name''
                      else Object_Name (bacObj (Devices s ! unat (Num_Managed_Devices s)))
                  | Some n \<Rightarrow>
                      if encoding n = CHARACTER_UTF8 \<and> length_cs n < MAX_DEV_NAME_LEN lim
                      then stored_string (value_cs n) (length_cs n)
                      else Object_Name (bacObj (Devices s ! unat (Num_Managed_Devices s))))\<rparr>,
            Description :=
              (case descr of
                 None \<Rightarrow>
                   if 8 < MAX_DEV_DESC_LEN lim then ''No Descr''
                   else Description (Devices s ! unat (Num_Managed_Devices s))
               | Some d \<Rightarrow>
                   if strlen d < MAX_DEV_DESC_LEN lim then stored_string d (strlen d)
                   else Description (Devices s ! unat (Num_Managed_Devices s))),
            Database_Revision := 0\<rparr>],
        Num_Managed_Devices := Num_Managed_Devices s + 1,
        iCurrent_Device_Idx := Num_Managed_Devices s\<rparr>)"
  using assms
  by (cases nm; cases descr)
     (simp_all add: Add_Routed_Device_def MAX_NUM_DEVICES_def Let_def uint_less_length
        Routed_Device_Set_Object_Name_def Routed_Device_Set_Description_def
        Routed_Device_Inc_Database_Revision_def set_device_def current_device_def)

lemma unat_Suc_le: "unat (w + 1 :: uint16_t) \<le> unat w + 1"
  by (simp add: unat_word_ariths)

text \<open>
  C5. With string limits that admit the two default texts, \<^verbatim>\<open>Add_Routed_Device\<close>
  appends exactly when the table holds fewer records than it has slots: it returns the
  old count as index, increments the count, makes the new slot the current device,
  leaves every other slot as it was, and the new record has the given instance number,
  the type Device, the name ``No Name'' and the description ``No Descr'' when these are
  absent, and database revision 0; the index differs from \<^verbatim>\<open>UINT16_MAX\<close> when the
  table has at most 65535 slots. When the table is full it returns \<^verbatim>\<open>UINT16_MAX\<close>
  and the state is unchanged. The count never exceeds the number of slots.
\<close>

theorem Add_Routed_Device_capacity:
  assumes "7 < MAX_DEV_NAME_LEN lim" and "8 < MAX_DEV_DESC_LEN lim"
  shows "(unat (Num_Managed_Devices s) < length (Devices s) \<longrightarrow>
            (let r = Add_Routed_Device lim inst nm descr s;
                 i = unat (Num_Managed_Devices s);
                 d = Devices (snd r) ! i
             in fst r = Num_Managed_Devices s
                \<and> Num_Managed_Devices (snd r) = Num_Managed_Devices s + 1
                \<and> iCurrent_Device_Idx (snd r) = Num_Managed_Devices s
                \<and> length (Devices (snd r)) = length (Devices s)
                \<and> (\<forall>j. j \<noteq> i \<longrightarrow> Devices (snd r) ! j = Devices s ! j)
                \<and> mObject_Type (bacObj d) = OBJECT_DEVICE
                \<and> Object_Instance_Number (bacObj d) = inst
                \<and> (nm = None \<longrightarrow> Object_Name (bacObj d) = ''No Name'')
                \<and> (descr = None \<longrightarrow> Description d = ''No Descr'')
                \<and> Database_Revision d = 0
                \<and> bacDevAddr d = bacDevAddr (Devices s ! i)
                \<and> (length (Devices s) \<le> 65535 \<longrightarrow> fst r \<noteq> UINT16_MAX)))
         \<and> (\<not> unat (Num_Managed_Devices s) < length (Devices s) \<longrightarrow>
              Add_Routed_Device lim inst nm descr s = (UINT16_MAX, s))
         \<and> (unat (Num_Managed_Devices s) \<le> length (Devices s) \<longrightarrow>
              unat (Num_Managed_Devices (snd (Add_Routed_Device lim inst nm descr s)))
                \<le> length (Devices (snd (Add_Routed_Device lim inst nm descr s))))"
proof (cases "unat (Num_Managed_Devices s) < length (Devices s)")
  case True
  note eq = Add_Routed_Device_room [OF True, of lim inst nm descr]
  have idx: "length (Devices s) \<le> 65535 \<Longrightarrow> Num_Managed_Devices s \<noteq> UINT16_MAX"
    using True by (auto simp: UINT16_MAX_def)
  have bound: "unat (Num_Managed_Devices s + 1) \<le> length (Devices s)"
    using True unat_Suc_le [of "Num_Managed_Devices s"] by linarith
  show ?thesis
    using True assms idx bound by (simp add: eq Let_def)
next
  case False
  then show ?thesis
    by (simp add: Add_Routed_Device_full)
qed

theorem Add_Routed_Device_capacity_witness:
  "7 < MAX_DEV_NAME_LEN example_limits \<and> 8 < MAX_DEV_DESC_LEN example_limits
   \<and> unat (Num_Managed_Devices (initial_state 2 7)) < length (Devices (initial_state 2 7))
   \<and> Add_Routed_Device example_limits 100 None None (initial_state 2 7) =
       (0, \<lparr>Devices =
               [\<lparr>bacObj = \<lparr>mObject_Type = OBJECT_DEVICE, Object_Instance_Number = 100,
                           Object_Name = ''No Name''\<rparr>,
                 bacDevAddr = zero_address 7, Description = ''No Descr'',
                 Database_Revision = 0\<rparr>,
                zero_device 7],
             Num_Managed_Devices = 1, iCurrent_Device_Idx = 0\<rparr>)
   \<and> \<not> unat (Num_Managed_Devices full_state) < length (Devices full_state)
   \<and> Add_Routed_Device example_limits 300 None None full_state = (UINT16_MAX, full_state)"
proof -
  have h: "7 < MAX_DEV_NAME_LEN example_limits" "8 < MAX_DEV_DESC_LEN example_limits"
    by (simp_all add: example_limits_def)
  have room: "unat (Num_Managed_Devices (initial_state 2 7)) < length (Devices (initial_state 2 7))"
    and full: "\<not> unat (Num_Managed_Devices full_state) < length (Devices full_state)"
    by (simp_all add: initial_state_def full_state_def)
  have first: "Add_Routed_Device example_limits 100 None None (initial_state 2 7) =
       (0, \<lparr>Devices =
               [\<lparr>bacObj = \<lparr>mObject_Type = OBJECT_DEVICE, Object_Instance_Number = 100,
                           Object_Name = ''No Name''\<rparr>,
                 bacDevAddr = zero_address 7, Description = ''No Descr'',
                 Database_Revision = 0\<rparr>,
                zero_device 7],
             Num_Managed_Devices = 1, iCurrent_Device_Idx = 0\<rparr>)"
    using Add_Routed_Device_room [OF room, of example_limits 100 None None]
    by (simp add: initial_state_def zero_device_def example_limits_def numeral_2_eq_2)
  show ?thesis
    using h room full first Add_Routed_Device_capacity [OF h, of full_state 300 None None]
      Add_Routed_Device_capacity [OF h, of "initial_state 2 7" 100 None None]
    by simp
qed

subsection \<open>Finding a device by its instance number\<close>

lemma Instance_To_Index_from_find:
  "Instance_To_Index_from q s i =
     (case find (holds_instance s q) [i ..< length (Devices s)] of
        None \<Rightarrow> 0
      | Some j \<Rightarrow> word_of_nat j)"
proof (induction q s i rule: Instance_To_Index_from.induct)
  case (1 q s i)
  show ?case
  proof (cases "i < length (Devices s)")
    case False
    then show ?thesis
      by (simp add: Instance_To_Index_from.simps [of q s i] MAX_NUM_DEVICES_def)
  next
    case True
    then have upt: "[i ..< length (Devices s)] = i # [Suc i ..< length (Devices s)]"
      by (simp add: upt_conv_Cons)
    show ?thesis
    proof (cases "holds_instance s q i")
      case hit: True
      then show ?thesis
        using True
        by (simp add: Instance_To_Index_from.simps [of q s i] MAX_NUM_DEVICES_def upt
              holds_instance_def)
    next
      case miss: False
      then have "Object_Instance_Number (bacObj (Devices s ! i)) \<noteq> q"
        by (simp add: holds_instance_def)
      with "1.IH" True miss show ?thesis
        by (simp add: Instance_To_Index_from.simps [of q s i] MAX_NUM_DEVICES_def upt)
    qed
  qed
qed

lemma unat_index16: "unat (word_of_nat j :: uint16_t) \<le> j"
  by (simp add: unat_of_nat)

lemma unat_index16_int: "0 \<le> i \<Longrightarrow> unat (word_of_int i :: uint16_t) \<le> nat i"
  using unat_index16 [of "nat i"] by simp

lemma unat_index32: "unat (ucast (word_of_nat j :: uint32_t) :: uint16_t) \<le> j"
proof -
  have "unat (ucast (word_of_nat j :: uint32_t) :: uint16_t) \<le> unat (word_of_nat j :: uint32_t)"
    by (simp add: unsigned_ucast_eq take_bit_nat_less_eq_self)
  also have "\<dots> \<le> j" by (simp add: unat_of_nat)
  finally show ?thesis .
qed

lemma unat_index32_eq:
  "j < 65536 \<Longrightarrow> unat (ucast (word_of_nat j :: uint32_t) :: uint16_t) = j"
  by (simp add: unsigned_ucast_eq unsigned_of_nat take_bit_nat_eq_self)

lemma Instance_To_Index_cases:
  "Routed_Device_Instance_To_Index q s = 0 \<and>
     find (holds_instance s q) [0 ..< length (Devices s)] = None
   \<or> (\<exists>j < length (Devices s). holds_instance s q j
         \<and> Routed_Device_Instance_To_Index q s = word_of_nat j)"
proof (cases "find (holds_instance s q) [0 ..< length (Devices s)]")
  case None
  then show ?thesis
    by (simp add: Routed_Device_Instance_To_Index_def Instance_To_Index_from_find)
next
  case (Some j)
  from find_upt_Some [OF Some] Some show ?thesis
    by (auto simp add: Routed_Device_Instance_To_Index_def Instance_To_Index_from_find)
qed

text \<open>
  C3, as amended. \<^verbatim>\<open>Routed_Device_Instance_To_Index\<close> returns the first slot of the
  whole table, occupied or not, that holds the instance number asked for, and 0 when no
  slot of the table holds it. Hence, when the occupied slots have pairwise distinct
  instance numbers and an occupied slot holds the number, it returns that slot; and it
  returns slot 0 when no slot at all holds the number.
\<close>

theorem Instance_To_Index_first_match:
  "Routed_Device_Instance_To_Index q s =
     (case find (holds_instance s q) [0 ..< length (Devices s)] of
        None \<Rightarrow> 0
      | Some j \<Rightarrow> word_of_nat j)
   \<and> (unat (Num_Managed_Devices s) \<le> length (Devices s)
        \<and> distinct (map (\<lambda>d. Object_Instance_Number (bacObj d))
                      (take (unat (Num_Managed_Devices s)) (Devices s)))
        \<and> k < unat (Num_Managed_Devices s) \<and> holds_instance s q k
        \<longrightarrow> Routed_Device_Instance_To_Index q s = word_of_nat k)
   \<and> ((\<forall>j < length (Devices s). \<not> holds_instance s q j)
        \<longrightarrow> Routed_Device_Instance_To_Index q s = 0)"
proof -
  let ?n = "length (Devices s)" and ?m = "unat (Num_Managed_Devices s)"
  let ?inst = "\<lambda>d. Object_Instance_Number (bacObj d)"
  note eq = Instance_To_Index_from_find [of q s 0, folded Routed_Device_Instance_To_Index_def]
  have occupied: "Routed_Device_Instance_To_Index q s = word_of_nat k"
    if le: "?m \<le> ?n" and dist: "distinct (map ?inst (take ?m (Devices s)))"
      and k: "k < ?m" and hit: "holds_instance s q k"
  proof (cases "find (holds_instance s q) [0 ..< ?n]")
    case None
    then have "\<not> holds_instance s q k"
      using k le by (simp add: find_upt_None)
    with hit show ?thesis by simp
  next
    case (Some j)
    from find_upt_Some [OF Some]
    have j: "j < ?n" "holds_instance s q j" "\<forall>i. i < j \<longrightarrow> \<not> holds_instance s q i"
      by simp_all
    have "j \<le> k" using j(3) hit by (meson not_le_imp_less)
    then have jm: "j < ?m" using k by simp
    have same: "map ?inst (take ?m (Devices s)) ! j = map ?inst (take ?m (Devices s)) ! k"
      using jm k le j(2) hit by (simp add: holds_instance_def)
    have lj: "j < length (map ?inst (take ?m (Devices s)))"
      and lk: "k < length (map ?inst (take ?m (Devices s)))"
      using jm k le by simp_all
    have "j = k"
      using nth_eq_iff_index_eq [OF dist lj lk] same by blast
    then show ?thesis using Some by (simp add: eq)
  qed
  have none: "Routed_Device_Instance_To_Index q s = 0"
    if "\<forall>j < ?n. \<not> holds_instance s q j"
  proof -
    have "find (holds_instance s q) [0 ..< ?n] = None"
      using that by (simp add: find_upt_None)
    then show ?thesis by (simp add: eq)
  qed
  show ?thesis
    using eq occupied none by blast
qed

theorem Instance_To_Index_first_match_witness:
  "Routed_Device_Instance_To_Index 200 example_state = 1
   \<and> Routed_Device_Instance_To_Index 999 example_state = 0
   \<and> unat (Num_Managed_Devices example_state) \<le> length (Devices example_state)
   \<and> distinct (map (\<lambda>d. Object_Instance_Number (bacObj d))
                 (take (unat (Num_Managed_Devices example_state)) (Devices example_state)))
   \<and> 1 < unat (Num_Managed_Devices example_state) \<and> holds_instance example_state 200 1"
proof -
  have h: "unat (Num_Managed_Devices example_state) \<le> length (Devices example_state)"
    "distinct (map (\<lambda>d. Object_Instance_Number (bacObj d))
                 (take (unat (Num_Managed_Devices example_state)) (Devices example_state)))"
    "1 < unat (Num_Managed_Devices example_state)" "holds_instance example_state 200 1"
    by (simp_all add: example_defs holds_instance_def)
  have n: "\<forall>j < length (Devices example_state). \<not> holds_instance example_state 999 j"
    by (simp add: example_defs holds_instance_def less_Suc_eq numeral_3_eq_3)
  have a: "Routed_Device_Instance_To_Index 200 example_state = word_of_nat 1"
    using Instance_To_Index_first_match [of 200 example_state 1] h by blast
  have b: "Routed_Device_Instance_To_Index 999 example_state = 0"
    using Instance_To_Index_first_match [of 999 example_state 0] n by blast
  show ?thesis
    using a b h by simp
qed

text \<open>
  C3 as stated fails: in the example table no occupied slot holds instance number 0, yet
  the scan returns slot 2, the unoccupied slot, whose instance number is still zero; and
  the validity check reports instance 0 as valid.
\<close>

theorem Instance_To_Index_unoccupied_counterexample:
  "unat (Num_Managed_Devices example_state) = 2
   \<and> distinct (map (\<lambda>d. Object_Instance_Number (bacObj d))
                 (take (unat (Num_Managed_Devices example_state)) (Devices example_state)))
   \<and> Object_Instance_Number (bacObj (Devices example_state ! 0)) = 100
   \<and> Object_Instance_Number (bacObj (Devices example_state ! 1)) = 200
   \<and> Routed_Device_Instance_To_Index 0 example_state = 2
   \<and> Routed_Device_Valid_Object_Instance_Number 0 example_state =
       (True, example_state\<lparr>iCurrent_Device_Idx := 2\<rparr>)"
proof -
  have f: "find (holds_instance example_state 0) [0 ..< length (Devices example_state)] = Some 2"
    by (simp add: example_defs holds_instance_def upt_conv_Cons)
  have i: "Routed_Device_Instance_To_Index 0 example_state = 2"
    using Instance_To_Index_from_find [of 0 example_state 0] f
    by (simp add: Routed_Device_Instance_To_Index_def)
  show ?thesis
    by (simp add: Routed_Device_Valid_Object_Instance_Number_def i Let_def current_device_def)
       (simp add: example_defs)
qed

subsection \<open>The validity check moves the current device\<close>

text \<open>
  C10. \<^verbatim>\<open>Routed_Device_Valid_Object_Instance_Number\<close> assigns the current device the
  result of the scan before it checks it, and changes nothing else. In a table of at
  most 65536 slots, whenever it returns false the current device is slot 0, the scan's
  default, whatever it was before.
\<close>

theorem Valid_Object_Instance_Number_moves_context:
  "snd (Routed_Device_Valid_Object_Instance_Number object_id s) =
     s\<lparr>iCurrent_Device_Idx := ucast (Routed_Device_Instance_To_Index object_id s)\<rparr>
   \<and> (length (Devices s) \<le> 65536
        \<and> \<not> fst (Routed_Device_Valid_Object_Instance_Number object_id s)
        \<longrightarrow> snd (Routed_Device_Valid_Object_Instance_Number object_id s) =
              s\<lparr>iCurrent_Device_Idx := 0\<rparr>)"
proof -
  have st: "snd (Routed_Device_Valid_Object_Instance_Number object_id s) =
     s\<lparr>iCurrent_Device_Idx := ucast (Routed_Device_Instance_To_Index object_id s)\<rparr>"
    by (simp add: Routed_Device_Valid_Object_Instance_Number_def Let_def)
  have miss: "Routed_Device_Instance_To_Index object_id s = 0"
    if small: "length (Devices s) \<le> 65536"
      and no: "\<not> fst (Routed_Device_Valid_Object_Instance_Number object_id s)"
  proof (rule ccontr)
    assume "Routed_Device_Instance_To_Index object_id s \<noteq> 0"
    with Instance_To_Index_cases [of object_id s]
    obtain j where j: "j < length (Devices s)" "holds_instance s object_id j"
      "Routed_Device_Instance_To_Index object_id s = word_of_nat j"
      by blast
    have "unat (ucast (word_of_nat j :: uint32_t) :: uint16_t) = j"
      using j(1) small by (simp add: unat_index32_eq)
    then have "fst (Routed_Device_Valid_Object_Instance_Number object_id s)"
      using j(2,3)
      by (simp add: Routed_Device_Valid_Object_Instance_Number_def Let_def current_device_def
            holds_instance_def)
    with no show False by simp
  qed
  show ?thesis
    using st miss by simp
qed

theorem Valid_Object_Instance_Number_moves_context_witness:
  "length (Devices full_state) \<le> 65536
   \<and> iCurrent_Device_Idx full_state = 1
   \<and> Routed_Device_Valid_Object_Instance_Number 999 full_state =
       (False, full_state\<lparr>iCurrent_Device_Idx := 0\<rparr>)
   \<and> iCurrent_Device_Idx (snd (Routed_Device_Valid_Object_Instance_Number 999 full_state))
       \<noteq> iCurrent_Device_Idx full_state"
proof -
  have f: "\<not> fst (Routed_Device_Valid_Object_Instance_Number 999 full_state)"
  proof -
    have "find (holds_instance full_state 999) [0 ..< length (Devices full_state)] = None"
      by (simp add: full_state_def example_defs holds_instance_def upt_conv_Cons)
    then have "Routed_Device_Instance_To_Index 999 full_state = 0"
      by (simp add: Routed_Device_Instance_To_Index_def Instance_To_Index_from_find)
    then show ?thesis
      by (simp add: Routed_Device_Valid_Object_Instance_Number_def Let_def current_device_def)
         (simp add: full_state_def example_defs)
  qed
  have h: "length (Devices full_state) \<le> 65536" "iCurrent_Device_Idx full_state = 1"
    by (simp_all add: full_state_def)
  have "snd (Routed_Device_Valid_Object_Instance_Number 999 full_state) =
          full_state\<lparr>iCurrent_Device_Idx := 0\<rparr>"
    using Valid_Object_Instance_Number_moves_context [of 999 full_state] h(1) f by blast
  then show ?thesis
    using f h by (simp add: prod_eq_iff)
qed

subsection \<open>The current device stays in the table\<close>

lemma in_table_Add:
  "in_table s \<Longrightarrow> in_table (snd (Add_Routed_Device lim inst nm descr s))"
  by (cases "unat (Num_Managed_Devices s) < length (Devices s)")
     (simp_all add: Add_Routed_Device_room Add_Routed_Device_full in_table_def)

lemma in_table_Add_room:
  "unat (Num_Managed_Devices s) < length (Devices s) \<Longrightarrow>
   in_table (snd (Add_Routed_Device lim inst nm descr s))"
  by (simp add: Add_Routed_Device_room in_table_def)

lemma occupied_Add_room:
  assumes "unat (Num_Managed_Devices s) < length (Devices s)" and "length (Devices s) \<le> 65535"
  shows "occupied (snd (Add_Routed_Device lim inst nm descr s))"
proof -
  have "unat (Num_Managed_Devices s) + 1 < 2 ^ LENGTH(16)"
    using assms by simp
  then have "unat (Num_Managed_Devices s + 1) = unat (Num_Managed_Devices s) + 1"
    by (simp add: unat_word_ariths)
  then show ?thesis
    using assms(1) by (simp add: Add_Routed_Device_room occupied_def)
qed

lemma occupied_Add_full:
  assumes "in_table s" and "\<not> unat (Num_Managed_Devices s) < length (Devices s)"
  shows "occupied (snd (Add_Routed_Device lim inst nm descr s))"
  using assms by (simp add: Add_Routed_Device_full occupied_def in_table_def)

lemma in_table_Get_Object:
  "in_table s \<Longrightarrow> in_table (snd (Get_Routed_Device_Object idx s))"
  using unat_index16_int [of idx]
  by (auto simp add: Get_Routed_Device_Object_def in_table_def MAX_NUM_DEVICES_def)

lemma in_table_Get_Address:
  "in_table s \<Longrightarrow> in_table (snd (Get_Routed_Device_Address idx s))"
  using unat_index16_int [of idx]
  by (auto simp add: Get_Routed_Device_Address_def in_table_def MAX_NUM_DEVICES_def)

lemma Address_Lookup_fst_range:
  "fst (Routed_Device_Address_Lookup idx dlen dadr s) \<Longrightarrow> 0 \<le> idx \<and> idx < MAX_NUM_DEVICES s"
  by (simp add: Routed_Device_Address_Lookup_def split: if_splits)

lemma in_table_Address_Lookup:
  assumes "in_table s"
  shows "in_table (snd (Routed_Device_Address_Lookup idx dlen dadr s))"
proof (cases "fst (Routed_Device_Address_Lookup idx dlen dadr s)")
  case True
  from Address_Lookup_fst_range [OF True] unat_index16_int [of idx]
  have "unat (word_of_int idx :: uint16_t) < length (Devices s)"
    by (simp add: MAX_NUM_DEVICES_def, linarith)
  then show ?thesis
    using True by (simp add: Address_Lookup_snd in_table_def)
next
  case False
  then show ?thesis
    using assms by (simp add: Address_Lookup_snd)
qed

lemma in_table_scan:
  assumes "in_table s" and "0 \<le> idx"
  shows "in_table (snd (snd (GetNext_scan dest idx s)))"
proof (cases "find (slot_matches dest s) [nat idx ..< length (Devices s)]")
  case None
  then show ?thesis using assms by (simp add: GetNext_scan_find)
next
  case (Some j)
  from find_upt_Some [OF Some] have "j < length (Devices s)" by simp
  then show ?thesis
    using Some assms(2) unat_index16 [of j] by (simp add: GetNext_scan_find in_table_def)
qed

lemma in_table_GetNext:
  assumes "in_table s"
  shows "in_table (snd (snd (Routed_Device_GetNext dest DNET_list cursor s)))"
proof -
  have a: "in_table (snd (Routed_Device_Address_Lookup i (len dest) (Some (adr dest)) s))" for i
    using assms by (rule in_table_Address_Lookup)
  have b: "in_table (snd (snd (GetNext_scan dest (if cursor = 0 then 1 else cursor) s)))"
    if "0 \<le> cursor"
    using that assms by (simp add: in_table_scan)
  show ?thesis
    using assms a b
    by (simp add: Routed_Device_GetNext_def Let_def split_def)
qed

lemma in_table_Valid:
  assumes "in_table s"
  shows "in_table (snd (Routed_Device_Valid_Object_Instance_Number object_id s))"
proof -
  have "unat (ucast (Routed_Device_Instance_To_Index object_id s) :: uint16_t) < length (Devices s)"
    using Instance_To_Index_cases [of object_id s] assms
  proof (elim disjE conjE exE)
    assume "Routed_Device_Instance_To_Index object_id s = 0"
    then show ?thesis using assms by (cases "Devices s") (simp_all add: in_table_def)
  next
    fix j assume "j < length (Devices s)"
      "Routed_Device_Instance_To_Index object_id s = word_of_nat j"
    then show ?thesis using unat_index32 [of j] by simp
  qed
  then show ?thesis
    by (simp add: Routed_Device_Valid_Object_Instance_Number_def Let_def in_table_def)
qed

lemma frame_Address_Lookup:
  "Devices (snd (Routed_Device_Address_Lookup idx dlen dadr s)) = Devices s
   \<and> Num_Managed_Devices (snd (Routed_Device_Address_Lookup idx dlen dadr s)) =
       Num_Managed_Devices s"
  by (simp add: Address_Lookup_snd)

lemma frame_scan:
  "0 \<le> idx \<Longrightarrow>
   Devices (snd (snd (GetNext_scan dest idx s))) = Devices s
   \<and> Num_Managed_Devices (snd (snd (GetNext_scan dest idx s))) = Num_Managed_Devices s"
  by (simp add: GetNext_scan_find split: option.split)

lemma frame_GetNext:
  "Devices (snd (snd (Routed_Device_GetNext dest DNET_list cursor s))) = Devices s
   \<and> Num_Managed_Devices (snd (snd (Routed_Device_GetNext dest DNET_list cursor s))) =
       Num_Managed_Devices s"
proof -
  have b: "Devices (snd (snd (GetNext_scan dest (if cursor = 0 then 1 else cursor) s))) = Devices s
     \<and> Num_Managed_Devices (snd (snd (GetNext_scan dest (if cursor = 0 then 1 else cursor) s))) =
         Num_Managed_Devices s"
    if "0 \<le> cursor"
    using that by (simp add: frame_scan)
  show ?thesis
    using b by (simp add: Routed_Device_GetNext_def Let_def split_def frame_Address_Lookup)
qed

text \<open>
  C2, as amended. When the current device is a slot of the table (an index below
  \<^verbatim>\<open>MAX_NUM_DEVICES\<close>), each of get by index, get address by index, address lookup,
  get-next and the instance validity check leaves it a slot of the table and changes
  neither a record nor the count. Add, when the current device is a slot of the table
  or the table has room, leaves it a slot of the table, and an occupied one in a table
  of at most 65535 slots. In a full table every slot is occupied, so there each of the
  operations leaves the current device on an occupied slot.
\<close>

theorem Context_stays_in_table:
  "(in_table s \<longrightarrow>
      context_moved_within_table s (snd (Get_Routed_Device_Object idx s))
      \<and> context_moved_within_table s (snd (Get_Routed_Device_Address idx s))
      \<and> context_moved_within_table s (snd (Routed_Device_Address_Lookup idx dlen dadr s))
      \<and> context_moved_within_table s
           (snd (snd (Routed_Device_GetNext dest (dnet # rest) cursor s)))
      \<and> context_moved_within_table s
           (snd (Routed_Device_Valid_Object_Instance_Number object_id s)))
   \<and> (in_table s \<or> unat (Num_Managed_Devices s) < length (Devices s) \<longrightarrow>
        in_table (snd (Add_Routed_Device lim inst nm descr s))
        \<and> (length (Devices s) \<le> 65535 \<longrightarrow>
             occupied (snd (Add_Routed_Device lim inst nm descr s))))
   \<and> (length (Devices s) \<le> unat (Num_Managed_Devices s)
        \<and> context_moved_within_table s t \<longrightarrow> occupied t)"
proof -
  have 1: "context_moved_within_table s (snd (Get_Routed_Device_Object idx s))"
    if "in_table s"
    using in_table_Get_Object [OF that, of idx]
    by (simp add: context_moved_within_table_def Get_Routed_Device_Object_def)
  have 2: "context_moved_within_table s (snd (Get_Routed_Device_Address idx s))"
    if "in_table s"
    using in_table_Get_Address [OF that, of idx]
    by (simp add: context_moved_within_table_def Get_Routed_Device_Address_def)
  have 3: "context_moved_within_table s (snd (Routed_Device_Address_Lookup idx dlen dadr s))"
    if "in_table s"
    using in_table_Address_Lookup [OF that, of idx dlen dadr]
    by (simp add: context_moved_within_table_def frame_Address_Lookup)
  have 4: "context_moved_within_table s
             (snd (snd (Routed_Device_GetNext dest (dnet # rest) cursor s)))"
    if "in_table s"
    using in_table_GetNext [OF that, of dest "dnet # rest" cursor]
    by (simp add: context_moved_within_table_def frame_GetNext)
  have 5: "context_moved_within_table s
             (snd (Routed_Device_Valid_Object_Instance_Number object_id s))"
    if "in_table s"
    using in_table_Valid [OF that, of object_id]
    by (simp add: context_moved_within_table_def
          Routed_Device_Valid_Object_Instance_Number_def Let_def)
  have 6: "in_table (snd (Add_Routed_Device lim inst nm descr s))"
    if "in_table s \<or> unat (Num_Managed_Devices s) < length (Devices s)"
    using that in_table_Add in_table_Add_room by blast
  have 7: "occupied (snd (Add_Routed_Device lim inst nm descr s))"
    if "in_table s \<or> unat (Num_Managed_Devices s) < length (Devices s)"
      and "length (Devices s) \<le> 65535"
    using that occupied_Add_room occupied_Add_full by blast
  have 8: "length (Devices s) \<le> unat (Num_Managed_Devices s)
           \<and> context_moved_within_table s t \<longrightarrow> occupied t"
    by (auto simp add: context_moved_within_table_def occupied_def in_table_def)
  show ?thesis
    using 1 2 3 4 5 6 7 8 by blast
qed

theorem Context_stays_in_table_witness:
  "in_table example_state
   \<and> snd (Get_Routed_Device_Object 1 example_state) =
       example_state\<lparr>iCurrent_Device_Idx := 1\<rparr>
   \<and> context_moved_within_table example_state (snd (Get_Routed_Device_Object 1 example_state))
   \<and> length (Devices example_state) \<le> 65535
   \<and> occupied (snd (Add_Routed_Device example_limits 300 None None example_state))
   \<and> length (Devices full_state) \<le> unat (Num_Managed_Devices full_state)
   \<and> in_table full_state
   \<and> occupied (snd (Get_Routed_Device_Object 0 full_state))"
proof -
  have h: "in_table example_state" "in_table full_state"
    "length (Devices example_state) \<le> 65535"
    "length (Devices full_state) \<le> unat (Num_Managed_Devices full_state)"
    by (simp_all add: in_table_def example_defs full_state_def)
  have g: "snd (Get_Routed_Device_Object 1 example_state) =
       example_state\<lparr>iCurrent_Device_Idx := 1\<rparr>"
    by (simp add: Get_Routed_Device_Object_def example_defs)
  note ex = Context_stays_in_table [of example_state 1 0 None "example_address 0 0 0" 10 "[- 1]" 0 0
      example_limits 300 None None example_state]
  note fu = Context_stays_in_table [of full_state 0 0 None "example_address 0 0 0" 10 "[- 1]" 0 0
      example_limits 300 None None "snd (Get_Routed_Device_Object 0 full_state)"]
  have a: "context_moved_within_table example_state (snd (Get_Routed_Device_Object 1 example_state))"
    using ex h(1) by blast
  have b: "occupied (snd (Add_Routed_Device example_limits 300 None None example_state))"
    using ex h(1) h(3) by blast
  have c: "occupied (snd (Get_Routed_Device_Object 0 full_state))"
    using fu h(2) h(4) by blast
  show ?thesis
    using h g a b c by simp
qed

text \<open>
  C2 as stated fails: in the example table, with two of three slots occupied, get by
  index 2, address lookup at index 2 and get-next with cursor 2 for a broadcast each
  leave the current device on slot 2, which is not occupied.
\<close>

theorem Context_unoccupied_counterexample:
  "unat (Num_Managed_Devices example_state) = 2
   \<and> occupied example_state
   \<and> snd (Get_Routed_Device_Object 2 example_state) =
       example_state\<lparr>iCurrent_Device_Idx := 2\<rparr>
   \<and> \<not> occupied (snd (Get_Routed_Device_Object 2 example_state))
   \<and> \<not> occupied (snd (Routed_Device_Address_Lookup 2 0 None example_state))
   \<and> \<not> occupied (snd (snd (Routed_Device_GetNext (example_address 65535 0 0)
                                 [10, - 1] 2 example_state)))"
proof -
  have h: "net (example_address 65535 0 0) = BACNET_BROADCAST_NETWORK"
          "(0::int) \<le> 2" "2 < MAX_NUM_DEVICES example_state"
    by (simp_all add: example_defs)
  have g: "snd (snd (Routed_Device_GetNext (example_address 65535 0 0) [10, - 1] 2 example_state))
           = example_state\<lparr>iCurrent_Device_Idx := 2\<rparr>"
    using GetNext_broadcast_step [OF h(2) h(3) h(1), of 10 "[- 1]"]
      example_matches(6) [of 65535 0]
    by (simp add: slot_matches_def)
  have l: "snd (Routed_Device_Address_Lookup 2 0 None example_state)
           = example_state\<lparr>iCurrent_Device_Idx := 2\<rparr>"
    using h(3) by (simp add: Routed_Device_Address_Lookup_def)
  have o: "\<not> occupied (example_state\<lparr>iCurrent_Device_Idx := 2\<rparr>)" "occupied example_state"
    "unat (Num_Managed_Devices example_state) = 2"
    by (simp_all add: occupied_def example_defs)
  have e: "snd (Get_Routed_Device_Object 2 example_state) =
       example_state\<lparr>iCurrent_Device_Idx := 2\<rparr>"
    using h(3) by (simp add: Get_Routed_Device_Object_def)
  show ?thesis
    by (simp only: g l e o simp_thms)
qed

subsection \<open>Approval of a service\<close>

text \<open>
  C8. For reinitialize-device and device-communication-control,
  \<^verbatim>\<open>Routed_Device_Service_Approval\<close> returns 0 when the current device is slot 0;
  when it is another slot it returns 1 if no buffer is supplied, and otherwise the
  length of the Reject message, with reason unrecognized-service, that the encoder
  wrote into the buffer. Every other service gets 0. The state is unchanged. With an
  encoder that never encodes zero octets, the result is non-zero exactly when the
  service is administrative and the current device is not slot 0.
\<close>

theorem Service_Approval_gate:
  "Routed_Device_Service_Approval enc service arg buf invoke_id s =
     (if is_administrative service \<and> iCurrent_Device_Idx s \<noteq> 0
      then (case buf of
              Some b \<Rightarrow>
                (fst (enc b invoke_id REJECT_REASON_UNRECOGNIZED_SERVICE),
                 Some (snd (enc b invoke_id REJECT_REASON_UNRECOGNIZED_SERVICE)), s)
            | None \<Rightarrow> (1, None, s))
      else (0, buf, s))
   \<and> ((\<forall>b i. fst (enc b i REJECT_REASON_UNRECOGNIZED_SERVICE) \<noteq> 0) \<longrightarrow>
        (fst (Routed_Device_Service_Approval enc service arg buf invoke_id s) \<noteq> 0) =
          (is_administrative service \<and> iCurrent_Device_Idx s \<noteq> 0))"
  by (cases service; cases buf)
     (simp_all add: Routed_Device_Service_Approval_def is_administrative_def word_gt_0 Let_def)

theorem Service_Approval_gate_witness:
  "(\<forall>b i. fst (reject_encode_apdu_spec b i REJECT_REASON_UNRECOGNIZED_SERVICE) \<noteq> 0)
   \<and> Routed_Device_Service_Approval reject_encode_apdu_spec
        SERVICE_SUPPORTED_REINITIALIZE_DEVICE 0 (Some [0, 0, 0, 0]) 7 full_state =
       (3, Some [96, 7, 9, 0], full_state)
   \<and> Routed_Device_Service_Approval reject_encode_apdu_spec
        SERVICE_SUPPORTED_DEVICE_COMMUNICATION_CONTROL 0 None 7 full_state =
       (1, None, full_state)
   \<and> Routed_Device_Service_Approval reject_encode_apdu_spec
        SERVICE_SUPPORTED_DEVICE_COMMUNICATION_CONTROL 0 None 7 example_state =
       (0, None, example_state)
   \<and> Routed_Device_Service_Approval reject_encode_apdu_spec
        (SERVICE_SUPPORTED_OTHER 12) 0 None 7 full_state =
       (0, None, full_state)
   \<and> fst (Routed_Device_Service_Approval reject_encode_apdu_spec
        SERVICE_SUPPORTED_REINITIALIZE_DEVICE 0 (Some [0, 0, 0, 0]) 7 full_state) \<noteq> 0"
proof -
  have e: "\<forall>b i. fst (reject_encode_apdu_spec b i REJECT_REASON_UNRECOGNIZED_SERVICE) \<noteq> 0"
    by (simp add: reject_encode_apdu_spec_def)
  have c: "iCurrent_Device_Idx full_state \<noteq> 0" "iCurrent_Device_Idx example_state = 0"
    by (simp_all add: full_state_def example_state_def)
  have a: "is_administrative SERVICE_SUPPORTED_REINITIALIZE_DEVICE"
    "is_administrative SERVICE_SUPPORTED_DEVICE_COMMUNICATION_CONTROL"
    "\<not> is_administrative (SERVICE_SUPPORTED_OTHER 12)"
    by (simp_all add: is_administrative_def)
  have r: "reject_encode_apdu_spec [0, 0, 0, 0] 7 REJECT_REASON_UNRECOGNIZED_SERVICE =
             (3, [96, 7, 9, 0])"
    by (simp add: reject_encode_apdu_spec_def REJECT_REASON_UNRECOGNIZED_SERVICE_def)
  have nz: "fst (Routed_Device_Service_Approval reject_encode_apdu_spec
        SERVICE_SUPPORTED_REINITIALIZE_DEVICE 0 (Some [0, 0, 0, 0]) 7 full_state) \<noteq> 0"
    using Service_Approval_gate [of reject_encode_apdu_spec
        SERVICE_SUPPORTED_REINITIALIZE_DEVICE 0 "Some [0, 0, 0, 0]" 7 full_state] e a(1) c(1)
    by blast
  show ?thesis
    using e nz
      Service_Approval_gate [of reject_encode_apdu_spec
        SERVICE_SUPPORTED_REINITIALIZE_DEVICE 0 "Some [0, 0, 0, 0]" 7 full_state]
      Service_Approval_gate [of reject_encode_apdu_spec
        SERVICE_SUPPORTED_DEVICE_COMMUNICATION_CONTROL 0 None 7 full_state]
      Service_Approval_gate [of reject_encode_apdu_spec
        SERVICE_SUPPORTED_DEVICE_COMMUNICATION_CONTROL 0 None 7 example_state]
      Service_Approval_gate [of reject_encode_apdu_spec
        "SERVICE_SUPPORTED_OTHER 12" 0 None 7 full_state]
    by (simp add: a c r)
qed

subsection \<open>Failed writes\<close>






end
